theory Spec2Isabelle
  imports Main "HOL-Library.AList"
begin

section \<open>JavaScript strings\<close>

text \<open>
  A JavaScript string is modelled as a \<^typ>\<open>string\<close>: a list of code units, each below 256.
  The operations are the ones the extension calls: \<^verbatim>\<open>String.prototype.includes\<close>,
  \<^verbatim>\<open>indexOf(..) >= 0\<close>, \<^verbatim>\<open>replace\<close> with an anchored regular expression and
  \<^verbatim>\<open>trim\<close>.
\<close>

fun startsWith :: "string \<Rightarrow> string \<Rightarrow> bool" where
  "startsWith s [] = True"
| "startsWith [] (p # ps) = False"
| "startsWith (c # cs) (p # ps) = (c = p \<and> startsWith cs ps)"

definition endsWith :: "string \<Rightarrow> string \<Rightarrow> bool" where
  "endsWith s p = startsWith (rev s) (rev p)"

text \<open>\<^verbatim>\<open>s.includes(sub)\<close>, which is also \<^verbatim>\<open>s.indexOf(sub) >= 0\<close>.\<close>

fun includesStr :: "string \<Rightarrow> string \<Rightarrow> bool" where
  "includesStr [] sub = (sub = [])"
| "includesStr (c # cs) sub = (startsWith (c # cs) sub \<or> includesStr cs sub)"

text \<open>
  The white space that \<^verbatim>\<open>trim\<close> removes, among the code units below 256: TAB, LF, VT, FF,
  CR, SPACE and NO-BREAK SPACE.
\<close>

definition isWhiteSpace :: "char \<Rightarrow> bool" where
  "isWhiteSpace c = ((of_char c :: nat) \<in> {9, 10, 11, 12, 13, 32, 160})"

definition trim :: "string \<Rightarrow> string" where
  "trim s = rev (dropWhile isWhiteSpace (rev (dropWhile isWhiteSpace s)))"

definition fence :: string where
  "fence = ''```''"

definition fenceMermaid :: string where
  "fenceMermaid = fence @ ''mermaid''"

text \<open>\<^verbatim>\<open>s.replace(/^```mermaid/, '')\<close>: the pattern can only match at index 0.\<close>

definition replaceLeadingFence :: "string \<Rightarrow> string" where
  "replaceLeadingFence s = (if startsWith s fenceMermaid then drop (length fenceMermaid) s else s)"

text \<open>
  \<^verbatim>\<open>s.replace(/```$/, '')\<close>: without the \<^verbatim>\<open>m\<close> flag, \<^verbatim>\<open>$\<close> matches at the end of the
  input only.
\<close>

definition replaceTrailingFence :: "string \<Rightarrow> string" where
  "replaceTrailingFence s = (if endsWith s fence then take (length s - length fence) s else s)"

section \<open>Diagram\<close>

text \<open>
  The class \<^verbatim>\<open>Diagram\<close> whose constructor strips the fence:
  \<^verbatim>\<open>this._content = this._content.replace(/^```mermaid/, '').replace(/```$/, '').trim()\<close>.
  The three \<^verbatim>\<open>logMessage\<close> calls of the constructor write to the output channel and do not
  change the value.
\<close>

definition normalize :: "string \<Rightarrow> string" where
  "normalize raw = trim (replaceTrailingFence (replaceLeadingFence raw))"

datatype Diagram = Diagram (content: string)

definition newDiagram :: "string \<Rightarrow> Diagram" where
  "newDiagram raw = Diagram (normalize raw)"


section \<open>The diagram editor panel\<close>

text \<open>
  \<^verbatim>\<open>ParseDetails\<close> is what the webview posts back after \<^verbatim>\<open>mermaid.parse\<close>:
  \<^verbatim>\<open>{ success: true; nonce } | { success: false; error; nonce; friendlyError? }\<close>.
\<close>

datatype ParseDetails =
    ParseSuccess (nonce: string)
  | ParseFailure (error: string) (nonce: string) (friendlyError: "string option")

text \<open>
  The value of \<^verbatim>\<open>webview.html\<close>: nothing yet, the page of \<^verbatim>\<open>getHtmlToValidateMermaid\<close>
  (which runs \<^verbatim>\<open>mermaid.parse\<close> on the content and posts the result with the nonce), or the
  page of \<^verbatim>\<open>getHtmlForWebview\<close> that displays the diagram.
\<close>

datatype WebviewHtml =
    Blank
  | HtmlToValidateMermaid string string
  | HtmlForWebview string

record DiagramEditorPanel =
  diagram :: Diagram
  panelTitle :: string
  webviewHtml :: WebviewHtml
  parseDetails :: "ParseDetails list"

text \<open>The result of \<^verbatim>\<open>_validate\<close>: \<^verbatim>\<open>{ success: true } | { success: false, error }\<close>.\<close>

datatype ValidateResult = Success | Failure string

text \<open>
  What happens while \<^verbatim>\<open>_validate\<close> waits: the webview posts a \<^verbatim>\<open>parse-result\<close> message
  (the handler pushes it on \<^verbatim>\<open>parseDetails\<close>), or the 100 ms interval fires.
\<close>

datatype WebviewEvent = ParseResultMessage ParseDetails | IntervalTick

record Polling =
  polledPanel :: DiagramEditorPanel
  intervalSet :: bool
  resolved :: "ValidateResult list"


text \<open>
  One event during the wait. The interval callback runs only until \<^verbatim>\<open>clearInterval\<close>;
  it looks for \<^verbatim>\<open>this.parseDetails.find((p) => p.nonce === nonce)\<close>, and on a hit clears the
  interval and resolves the promise, after loading the display page when the parse succeeded.
\<close>

fun pollEvent :: "string \<Rightarrow> Polling \<Rightarrow> WebviewEvent \<Rightarrow> Polling" where
  "pollEvent n ps (ParseResultMessage pd) =
     ps\<lparr>polledPanel := (polledPanel ps)\<lparr>parseDetails := parseDetails (polledPanel ps) @ [pd]\<rparr>\<rparr>"
| "pollEvent n ps IntervalTick =
     (if \<not> intervalSet ps then ps
      else case find (\<lambda>p. nonce p = n) (parseDetails (polledPanel ps)) of
        None \<Rightarrow> ps
      | Some pd \<Rightarrow>
          (case pd of
             ParseSuccess m \<Rightarrow>
               ps\<lparr>intervalSet := False,
                  polledPanel := (polledPanel ps)
                    \<lparr>webviewHtml := HtmlForWebview (content (diagram (polledPanel ps)))\<rparr>,
                  resolved := resolved ps @ [Success]\<rparr>
           | ParseFailure e m f \<Rightarrow>
               ps\<lparr>intervalSet := False, resolved := resolved ps @ [Failure e]\<rparr>))"

definition waitForParseDetails :: "string \<Rightarrow> DiagramEditorPanel \<Rightarrow> WebviewEvent list \<Rightarrow> Polling" where
  "waitForParseDetails n p evs =
     foldl (pollEvent n) \<lparr>polledPanel = p, intervalSet = True, resolved = []\<rparr> evs"

definition extraFenceError :: string where
  "extraFenceError = ''diagram contains extra ``` characters''"

text \<open>
  \<^verbatim>\<open>_validate(diagram?)\<close>. The arguments \<open>now\<close> and \<open>evs\<close> are what the environment
  contributes: the clock reading that becomes the nonce
  (\<^verbatim>\<open>new Date().getTime().toString()\<close>) and the events that arrive while the promise is
  pending. The result is \<open>None\<close> when the promise is never resolved.
\<close>

definition validate ::
  "DiagramEditorPanel \<Rightarrow> Diagram option \<Rightarrow> string \<Rightarrow> WebviewEvent list
    \<Rightarrow> ValidateResult option \<times> DiagramEditorPanel" where
  "validate p dopt now evs =
     (let p1 = (case dopt of Some d \<Rightarrow> p\<lparr>diagram := d\<rparr> | None \<Rightarrow> p) in
      if includesStr (content (diagram p1)) fence then (Some (Failure extraFenceError), p1)
      else
        let p2 = p1\<lparr>panelTitle := ''@mermAId Diagram'',
                   webviewHtml := HtmlToValidateMermaid (content (diagram p1)) now\<rparr>;
            ps = waitForParseDetails now p2 evs
        in (case resolved ps of [] \<Rightarrow> None | r # rs \<Rightarrow> Some r, polledPanel ps))"

text \<open>The private constructor: a fresh webview panel holding the diagram.\<close>

definition newDiagramEditorPanel :: "Diagram \<Rightarrow> DiagramEditorPanel" where
  "newDiagramEditorPanel d =
     \<lparr>diagram = d, panelTitle = ''@mermAId Diagram'', webviewHtml = Blank, parseDetails = []\<rparr>"

text \<open>
  \<^verbatim>\<open>DiagramEditorPanel.createOrShow(diagram)\<close> on the static \<^verbatim>\<open>currentPanel\<close>; the
  returned panel is the new value of \<^verbatim>\<open>currentPanel\<close>. Revealing the panel, setting the
  context key and the log lines have no part in the result and are left out; the panel is
  not disposed while a turn runs.
\<close>

definition createOrShow ::
  "DiagramEditorPanel option \<Rightarrow> Diagram \<Rightarrow> string \<Rightarrow> WebviewEvent list
    \<Rightarrow> ValidateResult option \<times> DiagramEditorPanel" where
  "createOrShow cur d now evs =
     (case cur of
        Some p \<Rightarrow> validate p (Some d) now evs
      | None \<Rightarrow> validate (newDiagramEditorPanel d) None now evs)"


section \<open>The chat participant\<close>

subsection \<open>Messages, response parts and tool calls\<close>

datatype LanguageModelChatMessageRole = UserRole | AssistantRole

datatype LanguageModelChatMessage =
  LanguageModelChatMessage (role: LanguageModelChatMessageRole) (messageContent: string)

definition User :: "string \<Rightarrow> LanguageModelChatMessage" where
  "User text = LanguageModelChatMessage UserRole text"

record LanguageModelToolCallPart =
  callId :: string
  toolName :: string
  parameters :: string

text \<open>
  What \<^verbatim>\<open>response.stream\<close> yields: a text part, a tool call part, a chunk of the Groq
  shape (an object with \<^verbatim>\<open>choices\<close>, carrying \<^verbatim>\<open>choices[0]?.delta?.content\<close> when
  there is one), or something else.
\<close>

datatype ResponsePart =
    LanguageModelTextPart string
  | ToolCallPart LanguageModelToolCallPart
  | GroqChunk "string option"
  | OtherPart

record ToolCallRound =
  response :: string
  toolCalls :: "LanguageModelToolCallPart list"

text \<open>
  \<^verbatim>\<open>accumulatedToolResults: Record<string, LanguageModelToolResult>\<close>: a JavaScript object,
  that is, an association list in insertion order where \<^verbatim>\<open>obj[k] = v\<close> is
  \<^const>\<open>AList.update\<close>. A tool result is opaque text.
\<close>

type_synonym ToolResults = "(string \<times> string) list"

text \<open>
  What the turn does to the outside, in order: \<^verbatim>\<open>stream.markdown\<close>, \<^verbatim>\<open>stream.progress\<close>,
  \<^verbatim>\<open>stream.button\<close> (with the content of the diagram as the argument of the command), the
  \<^verbatim>\<open>logMessage\<close> calls of \<^verbatim>\<open>runWithFunctions\<close>, \<^verbatim>\<open>model.sendRequest\<close> with the messages,
  the Groq completion request with the converted messages, and \<^verbatim>\<open>renderPrompt\<close> with the
  round history and the tool results it is given.
\<close>

datatype Effect =
    Markdown string
  | Progress string
  | Button string
  | LogMessage string
  | SendRequest "LanguageModelChatMessage list"
  | GroqCreate "(string \<times> string) list"
  | RenderPrompt "ToolCallRound list" ToolResults

subsection \<open>The stream loop\<close>

record StreamVars =
  isMermaidDiagramStreamingIn :: bool
  mermaidDiagram :: string
  streamToolCalls :: "LanguageModelToolCallPart list"
  responseStr :: string
  totalResponse :: string
  streamed :: "Effect list"

text \<open>
  The adaptation of a Groq chunk at the head of the loop body: a chunk with a non-empty
  content becomes a text part, any other part stays as it is.
\<close>

fun adaptGroq :: "ResponsePart \<Rightarrow> ResponsePart" where
  "adaptGroq (GroqChunk (Some partContent)) =
     (if partContent \<noteq> [] then LanguageModelTextPart partContent else GroqChunk (Some partContent))"
| "adaptGroq part = part"

definition capturingProgress :: string where
  "capturingProgress = ''Capturing mermaid diagram from the model...''"

definition onTextPart :: "StreamVars \<Rightarrow> string \<Rightarrow> StreamVars" where
  "onTextPart v val =
     (let v1 = (if \<not> isMermaidDiagramStreamingIn v \<and> includesStr val ''``''
                then v\<lparr>streamed := streamed v @ [Progress capturingProgress],
                       isMermaidDiagramStreamingIn := True,
                       totalResponse := totalResponse v @ val\<rparr>
                else v)
      in if isMermaidDiagramStreamingIn v1
         then v1\<lparr>mermaidDiagram := mermaidDiagram v1 @ val\<rparr>
         else v1\<lparr>streamed := streamed v1 @ [Markdown val], responseStr := responseStr v1 @ val\<rparr>)"

definition onPart :: "StreamVars \<Rightarrow> ResponsePart \<Rightarrow> StreamVars" where
  "onPart v part =
     (case adaptGroq part of
        LanguageModelTextPart val \<Rightarrow> onTextPart v val
      | ToolCallPart tc \<Rightarrow> v\<lparr>streamToolCalls := streamToolCalls v @ [tc]\<rparr>
      | GroqChunk c \<Rightarrow> v
      | OtherPart \<Rightarrow> v)"

text \<open>The locals as \<^verbatim>\<open>runWithFunctions\<close> initialises them on every entry.\<close>

definition initialVars :: StreamVars where
  "initialVars =
     \<lparr>isMermaidDiagramStreamingIn = False, mermaidDiagram = [], streamToolCalls = [],
      responseStr = [], totalResponse = [], streamed = []\<rparr>"

definition streamLoop :: "ResponsePart list \<Rightarrow> StreamVars" where
  "streamLoop parts = foldl onPart initialVars parts"

text \<open>The text of a part as the loop sees it, and the calls of \<^verbatim>\<open>stream.markdown\<close>.\<close>

definition textOf :: "ResponsePart \<Rightarrow> string option" where
  "textOf part = (case adaptGroq part of LanguageModelTextPart val \<Rightarrow> Some val | _ \<Rightarrow> None)"

definition texts :: "ResponsePart list \<Rightarrow> string list" where
  "texts parts = List.map_filter textOf parts"

fun markdownOf :: "Effect \<Rightarrow> string option" where
  "markdownOf (Markdown s) = Some s"
| "markdownOf e = None"

definition proseSink :: "Effect list \<Rightarrow> string list" where
  "proseSink es = List.map_filter markdownOf es"

subsection \<open>The request and its collaborators\<close>

text \<open>
  What a turn is given: the command of the request, the environment variable that
  \<^verbatim>\<open>callWithGroq\<close> reads, the text that the prompt element renders, and the tool invoker.
  The last two are external to \<^verbatim>\<open>chatParticipant.ts\<close> and are taken as parameters.
\<close>

record Request =
  command :: "string option"
  GROQ_API_KEY :: "string option"
  promptMessages ::
    "ToolCallRound list \<Rightarrow> ToolResults \<Rightarrow> Diagram option \<Rightarrow> LanguageModelChatMessage list"
  invokeTool :: "LanguageModelToolCallPart \<Rightarrow> string"

text \<open>
  Modelled from the spec: the prompt element \<^verbatim>\<open>MermaidPrompt\<close> and its
  \<^verbatim>\<open>ToolResultMetadata\<close> (\<^verbatim>\<open>chat/mermaidPrompt.tsx\<close>) are not among the sources.
  The spec says of prompt construction that it is given the full round history and the
  accumulated tool-result map, that each call of the history is invoked through the external
  tool invoker with its success or failure text as the result, and that a result is not
  requested again from the invoker once it is present in the map. The metadata returned is
  one (call identifier, result) pair for each tool call of the history.
\<close>

definition toolResultFor ::
  "(LanguageModelToolCallPart \<Rightarrow> string) \<Rightarrow> ToolResults \<Rightarrow> LanguageModelToolCallPart
    \<Rightarrow> string \<times> string" where
  "toolResultFor invoke results tc =
     (callId tc, case map_of results (callId tc) of Some r \<Rightarrow> r | None \<Rightarrow> invoke tc)"

definition renderPrompt ::
  "Request \<Rightarrow> ToolCallRound list \<Rightarrow> ToolResults \<Rightarrow> Diagram option
    \<Rightarrow> LanguageModelChatMessage list \<times> (string \<times> string) list" where
  "renderPrompt rq rounds results cur =
     (promptMessages rq rounds results cur,
      map (toolResultFor (invokeTool rq) results) (concat (map toolCalls rounds)))"

text \<open>
  What the environment contributes to one entry of \<^verbatim>\<open>runWithFunctions\<close>: the parts of the
  model's response, an error thrown by the stream after them (if any), and the clock reading
  and webview events of the validation.
\<close>

record Round =
  parts :: "ResponsePart list"
  streamError :: "string option"
  now :: string
  webviewEvents :: "WebviewEvent list"

subsection \<open>The state of a turn\<close>

text \<open>
  The variables that \<^verbatim>\<open>runWithFunctions\<close> closes over, the static
  \<^verbatim>\<open>DiagramEditorPanel.currentPanel\<close>, and the effects so far.
\<close>

record Turn =
  messages :: "LanguageModelChatMessage list"
  retries :: nat
  accumulatedToolResults :: ToolResults
  toolCallRounds :: "ToolCallRound list"
  currentPanel :: "DiagramEditorPanel option"
  effects :: "Effect list"

text \<open>
  How a turn ends: the diagram is shown, the retries are used up, there was nothing to
  iterate on, an exception went through, or the turn is still waiting (for a validation
  result that never comes, or for a response beyond the ones given).
\<close>

datatype Outcome =
    Accepted
  | Abandoned
  | NoDiagramToIterate
  | Threw string
  | ValidationPending
  | AwaitingModel

datatype Step = Reenter Turn | Return Outcome Turn

definition emit :: "Effect list \<Rightarrow> Turn \<Rightarrow> Turn" where
  "emit es st = st\<lparr>effects := effects st @ es\<rparr>"

definition push :: "LanguageModelChatMessage \<Rightarrow> Turn \<Rightarrow> Turn" where
  "push m st = st\<lparr>messages := messages st @ [m]\<rparr>"

subsection \<open>Calling the model\<close>

text \<open>\<^verbatim>\<open>groqEnabled\<close> is set from the command before the loop starts.\<close>

definition groqEnabled :: "Request \<Rightarrow> bool" where
  "groqEnabled rq = (command rq = Some ''iterate'')"

definition convertMessagesToGroq :: "LanguageModelChatMessage list \<Rightarrow> (string \<times> string) list" where
  "convertMessagesToGroq ms = map (\<lambda>m. (''user'', messageContent m)) (filter (\<lambda>m. role m = UserRole) ms)"

definition missingKeyError :: string where
  "missingKeyError = ''GROQ_API_KEY environment variable is not set''"

definition usingGroq :: string where
  "usingGroq = ''using GROQ for request... \<newline>''"

text \<open>
  \<^verbatim>\<open>callWithGroq(messages, stream)\<close> or \<^verbatim>\<open>model.sendRequest(messages, options, token)\<close>.
  \<open>Inl\<close> is the error thrown when the key is missing or empty.
\<close>

definition callModel :: "Request \<Rightarrow> Turn \<Rightarrow> string + Turn" where
  "callModel rq st =
     (if groqEnabled rq then
        (case GROQ_API_KEY rq of
           None \<Rightarrow> Inl missingKeyError
         | Some apiKey \<Rightarrow>
             if apiKey = [] then Inl missingKeyError
             else Inr (emit [Markdown usingGroq, GroqCreate (convertMessagesToGroq (messages st))] st))
      else Inr (emit [SendRequest (messages st)] st))"

subsection \<open>The tool-call branch\<close>

definition foldResults :: "ToolResults \<Rightarrow> (string \<times> string) list \<Rightarrow> ToolResults" where
  "foldResults acc metas = foldl (\<lambda>a meta. AList.update (fst meta) (snd meta) a) acc metas"

text \<open>
  The branch \<^verbatim>\<open>if (toolCalls.length)\<close>: push the round, render the prompt with the round
  history and the accumulated results, take its messages, and store every result of its
  metadata under its call identifier.
\<close>

definition toolCallBranch ::
  "Request \<Rightarrow> Turn \<Rightarrow> string \<Rightarrow> LanguageModelToolCallPart list \<Rightarrow> Turn" where
  "toolCallBranch rq st resp calls =
     (let rounds = toolCallRounds st @ [\<lparr>response = resp, toolCalls = calls\<rparr>];
          result = renderPrompt rq rounds (accumulatedToolResults st)
                     (map_option diagram (currentPanel st))
      in st\<lparr>toolCallRounds := rounds,
            messages := fst result,
            accumulatedToolResults := foldResults (accumulatedToolResults st) (snd result),
            effects := effects st @ [RenderPrompt rounds (accumulatedToolResults st)]\<rparr>)"

subsection \<open>Handling a parse error\<close>

fun showNat :: "nat \<Rightarrow> string" where
  "showNat n =
     (if n < 10 then [char_of (48 + n)] else showNat (n div 10) @ [char_of (48 + n mod 10)])"

definition addKeywordText :: string where
  "addKeywordText =
     ''Please add the `mermaid` keyword to the start of your diagram. Like this  ```mermaid ''"

definition nestingContextText :: string where
  "nestingContextText =
     ''Remember when creating the UML diagram in Mermaid, classes a''
     @ ''re represented as flat structures, and Mermaid does not supp''
     @ ''ort nested class definitions. Instead, each class must be de''
     @ ''fined separately, and relationships between them must be exp''
     @ ''licitly stated.Use association to connect the main class to ''
     @ ''the nested class, using cardinality to denote relationships ''
     @ ''(e.g., one-to-many). '' @ ''\<newline>''
     @ '' example of correct syntax: '' @ ''\<newline>'' @ ''\<newline>''
     @ ''                classDiagram'' @ ''\<newline>''
     @ ''                    class House {'' @ ''\<newline>''
     @ ''                        string address'' @ ''\<newline>''
     @ ''                        int rooms'' @ ''\<newline>''
     @ ''                        Kitchen kitchen'' @ ''\<newline>''
     @ ''                    }'' @ ''\<newline>''
     @ ''                                    '' @ ''\<newline>''
     @ ''                    class Kitchen {'' @ ''\<newline>''
     @ ''                        string appliances'' @ ''\<newline>''
     @ ''                        int size'' @ ''\<newline>''
     @ ''                    }'' @ ''\<newline>''
     @ ''                                    '' @ ''\<newline>''
     @ ''                    House '' @ [CHR 0x22] @ ''1'' @ [CHR 0x22] @ '' --> ''
     @ [CHR 0x22] @ ''1'' @ [CHR 0x22] @ '' Kitchen : kitchen'' @ ''\<newline>''
     @ ''                ''"

definition addNestingContext :: "Turn \<Rightarrow> Turn" where
  "addNestingContext st = push (User nestingContextText) st"

definition fixText :: "string \<Rightarrow> string \<Rightarrow> string" where
  "fixText err md =
     ''Please fix this mermaid parse error to make the diagram render correctly: '' @ err
     @ ''. The produced diagram with the parse error is:\<newline>'' @ md"

definition failedText :: string where
  "failedText =
     ''Failed to display your requested mermaid diagram. Check output log for details.''
     @ ''\<newline>\<newline>''"

text \<open>
  The code after \<^verbatim>\<open>// -- Handle parse error\<close>, with the raw diagram buffer \<open>md\<close> and the
  error \<open>err\<close> of the failed validation.
\<close>

definition handleParseError :: "Turn \<Rightarrow> string \<Rightarrow> string \<Rightarrow> Step" where
  "handleParseError st md err =
     (let st1 = emit [LogMessage (''Not successful (on retry='' @ showNat (Suc (retries st)) @ '')'')]
                  (st\<lparr>retries := Suc (retries st)\<rparr>);
          st2 = (if retries st1 = 1
                 then (if \<not> includesStr md ''mermaid'' then push (User addKeywordText) st1
                       else addNestingContext st1)
                 else st1)
      in if retries st2 < 4
         then Reenter (push (User (fixText err md))
                        (emit [Progress ''Attempting to fix validation errors''] st2))
         else Return Abandoned
                (emit ((if err \<noteq> [] then [LogMessage err] else [])
                       @ [Markdown failedText, Markdown md, Markdown ''running with function go ''])
                   st2))"

subsection \<open>Validation\<close>

text \<open>
  From \<^verbatim>\<open>logMessage(mermaidDiagram)\<close> to the end of \<^verbatim>\<open>runWithFunctions\<close>: the diagram is
  built from the buffer, validated by the panel, and shown or handled as a parse error.
\<close>

definition validateBranch :: "Turn \<Rightarrow> string \<Rightarrow> string \<Rightarrow> WebviewEvent list \<Rightarrow> Step" where
  "validateBranch st md clock evs =
     (let st1 = emit [LogMessage md, Progress ''Validating mermaid diagram''] st;
          d = newDiagram md;
          result = createOrShow (currentPanel st1) d clock evs;
          st2 = st1\<lparr>currentPanel := Some (snd result)\<rparr>
      in case fst result of
           None \<Rightarrow> Return ValidationPending st2
         | Some Success \<Rightarrow> Return Accepted (emit [Button (content d)] st2)
         | Some (Failure err) \<Rightarrow> handleParseError st2 md err)"

subsection \<open>The loop\<close>

definition noDiagramText :: string where
  "noDiagramText =
     ''No diagram found in editor view. Please create a diagram first to iterate on it.''"

text \<open>The check at the head of \<^verbatim>\<open>runWithFunctions\<close>.\<close>

definition nothingToIterate :: "Request \<Rightarrow> Turn \<Rightarrow> bool" where
  "nothingToIterate rq st = (command rq = Some ''iterate'' \<and> currentPanel st = None)"

text \<open>One entry of \<^verbatim>\<open>runWithFunctions\<close> past that check, up to its return or its re-entry.\<close>

definition modelRound :: "Request \<Rightarrow> Turn \<Rightarrow> Round \<Rightarrow> Step" where
  "modelRound rq st r =
     (case callModel rq st of
        Inl e \<Rightarrow> Return (Threw e) st
      | Inr st1 \<Rightarrow>
          let v = streamLoop (parts r);
              st2 = emit (streamed v) st1
          in case streamError r of
               Some e \<Rightarrow> Return (Threw e) st2
             | None \<Rightarrow>
                 if streamToolCalls v \<noteq> []
                 then Reenter (toolCallBranch rq st2 (responseStr v) (streamToolCalls v))
                 else validateBranch st2 (mermaidDiagram v) (now r) (webviewEvents r))"

fun runWithFunctions :: "Request \<Rightarrow> Turn \<Rightarrow> Round list \<Rightarrow> Outcome \<times> Turn" where
  "runWithFunctions rq st [] =
     (if nothingToIterate rq st then (NoDiagramToIterate, emit [Markdown noDiagramText] st)
      else (AwaitingModel, st))"
| "runWithFunctions rq st (r # rs) =
     (if nothingToIterate rq st then (NoDiagramToIterate, emit [Markdown noDiagramText] st)
      else case modelRound rq st r of
             Reenter st' \<Rightarrow> runWithFunctions rq st' rs
           | Return out st' \<Rightarrow> (out, st'))"

text \<open>
  \<^verbatim>\<open>chatRequestHandler\<close>: the first prompt is rendered with no rounds and no results, the
  counter starts at 0, and the loop is entered. The selection of the model, the tool
  manifest and the reference anchors reported to the stream come before the loop and do
  not enter it.
\<close>

definition startTurn :: "Request \<Rightarrow> DiagramEditorPanel option \<Rightarrow> Turn" where
  "startTurn rq cur =
     \<lparr>messages = fst (renderPrompt rq [] [] (map_option diagram cur)),
      retries = 0, accumulatedToolResults = [], toolCallRounds = [],
      currentPanel = cur, effects = [RenderPrompt [] []]\<rparr>"

definition chatRequestHandler ::
  "Request \<Rightarrow> DiagramEditorPanel option \<Rightarrow> Round list \<Rightarrow> Outcome \<times> Turn" where
  "chatRequestHandler rq cur rs = runWithFunctions rq (startTurn rq cur) rs"

definition modelInvocations :: "Effect list \<Rightarrow> nat" where
  "modelInvocations es =
     length (filter (\<lambda>e. case e of SendRequest ms \<Rightarrow> True | GroqCreate ms \<Rightarrow> True | _ \<Rightarrow> False) es)"

section \<open>Notions used in the statements\<close>

fun turnOf :: "Step \<Rightarrow> Turn" where
  "turnOf (Reenter st) = st"
| "turnOf (Return out st) = st"

text \<open>
  The condition in the words of the design: the diagram-type keyword comes immediately
  after the opening fence, the opening fence being the first \<^verbatim>\<open>```\<close> of the text.
\<close>

fun afterOpeningFence :: "string \<Rightarrow> string option" where
  "afterOpeningFence [] = None"
| "afterOpeningFence (c # cs) =
     (if startsWith (c # cs) fence then Some (drop (length fence) (c # cs))
      else afterOpeningFence cs)"

definition keywordAfterOpeningFence :: "string \<Rightarrow> bool" where
  "keywordAfterOpeningFence md =
     (case afterOpeningFence md of None \<Rightarrow> False | Some rest \<Rightarrow> startsWith rest ''mermaid'')"







subsection \<open>Example inputs\<close>

definition plainRequest :: Request where
  "plainRequest =
     \<lparr>command = None, GROQ_API_KEY = None,
      promptMessages = (\<lambda>rounds results cur. [User ''draw the classes'']),
      invokeTool = (\<lambda>tc. ''result of '' @ toolName tc)\<rparr>"

definition iterateRequest :: Request where
  "iterateRequest = plainRequest\<lparr>command := Some ''iterate''\<rparr>"


definition acceptedRound :: "string \<Rightarrow> string \<Rightarrow> Round" where
  "acceptedRound body clock =
     \<lparr>parts = [LanguageModelTextPart (''```mermaid\<newline>'' @ body @ ''\<newline>```'')],
      streamError = None, now = clock,
      webviewEvents = [ParseResultMessage (ParseSuccess clock), IntervalTick]\<rparr>"

definition symbolCall :: LanguageModelToolCallPart where
  "symbolCall =
     \<lparr>callId = ''call_1'', toolName = ''mermAId_get_symbol_definition'', parameters = ''House''\<rparr>"

definition toolCallRound :: Round where
  "toolCallRound =
     \<lparr>parts = [LanguageModelTextPart ''Looking up House. '', ToolCallPart symbolCall,
               LanguageModelTextPart ''```mermaid\<newline>classDiagram\<newline>```''],
      streamError = None, now = ''1700000000000'', webviewEvents = []\<rparr>"

definition freshTurn :: Turn where
  "freshTurn = startTurn plainRequest None"

text \<open>A diagram buffer whose opening fence carries no keyword, with the word further down.\<close>

definition unlabelledDiagram :: string where
  "unlabelledDiagram = ''```\<newline>classDiagram\<newline>class mermaid\<newline>```''"


text \<open>A turn in which one tool round has already been answered.\<close>

definition cachedTurn :: Turn where
  "cachedTurn =
     freshTurn
       \<lparr>accumulatedToolResults := [(''call_0'', ''class Kitchen'')],
        toolCallRounds := [\<lparr>response = ''Looking up Kitchen. '',
                             toolCalls = [symbolCall\<lparr>callId := ''call_0'', parameters := ''Kitchen''\<rparr>]\<rparr>]\<rparr>"


text \<open>
  What a response consists of, read off its chunks: the tool calls it issues, in order, and
  its prose, that is, the texts that come before the first text with two consecutive
  backticks.
\<close>

fun toolCallOf :: "ResponsePart \<Rightarrow> LanguageModelToolCallPart option" where
  "toolCallOf (ToolCallPart tc) = Some tc"
| "toolCallOf part = None"

definition toolCallParts :: "ResponsePart list \<Rightarrow> LanguageModelToolCallPart list" where
  "toolCallParts ps = List.map_filter toolCallOf ps"

definition proseOf :: "ResponsePart list \<Rightarrow> string" where
  "proseOf ps = concat (takeWhile (\<lambda>t. \<not> includesStr t ''``'') (texts ps))"

section \<open>Properties of the diagram text\<close>

lemma dropWhile_rev_twice:
  "dropWhile P (rev (dropWhile P (rev (dropWhile P s)))) = rev (dropWhile P (rev (dropWhile P s)))"
proof (cases "dropWhile P (rev (dropWhile P s)) = []")
  case True
  show ?thesis unfolding True by simp
next
  case False
  let ?a = "dropWhile P s" and ?b = "dropWhile P (rev (dropWhile P s))"
  have a: "?a \<noteq> []"
  proof
    assume e: "?a = []"
    from False show False unfolding e by simp
  qed
  have "rev ?a = takeWhile P (rev ?a) @ ?b" by simp
  then have "last ?b = last (rev ?a)" using False by (metis last_appendR)
  also have "\<dots> = hd ?a" using a by (simp add: last_rev)
  finally have "\<not> P (last ?b)" using a by (simp add: hd_dropWhile)
  moreover have "hd (rev ?b) = last ?b" using False by (simp add: hd_rev)
  ultimately show ?thesis using False by (simp add: dropWhile_eq_self_iff)
qed

lemma trim_trim: "trim (trim s) = trim s"
  by (simp add: trim_def dropWhile_rev_twice dropWhile_idem)

lemma trim_normalize: "trim (normalize x) = normalize x"
  by (simp add: normalize_def trim_trim)

lemma normalize_fixed:
  assumes "\<not> startsWith y fenceMermaid" and "\<not> endsWith y fence" and "trim y = y"
  shows "normalize y = y"
  using assms by (simp add: normalize_def replaceLeadingFence_def replaceTrailingFence_def)

text \<open>
  C4, as the code has it: \<open>normalize\<close> strips at most one leading \<^verbatim>\<open>```mermaid\<close> and one
  trailing \<^verbatim>\<open>```\<close>, both before trimming, so it is idempotent on every input whose
  normalized form neither begins with \<^verbatim>\<open>```mermaid\<close> nor ends with \<^verbatim>\<open>```\<close>:
  for such \<open>x\<close>, \<open>normalize (normalize x) = normalize x\<close>.
\<close>

theorem normalize_idempotent_unless_fenced:
  "\<not> startsWith (normalize x) fenceMermaid \<Longrightarrow> \<not> endsWith (normalize x) fence
    \<Longrightarrow> normalize (normalize x) = normalize x"
  by (rule normalize_fixed) (simp_all add: trim_normalize)

theorem normalize_idempotent_unless_fenced_witness:
  "normalize (normalize ''```mermaid\<newline>A-->B\<newline>```'') = ''A-->B''"
proof -
  have n: "normalize ''```mermaid\<newline>A-->B\<newline>```'' = ''A-->B''"
    by code_simp
  have "\<not> startsWith ''A-->B'' fenceMermaid" and "\<not> endsWith ''A-->B'' fence"
    by code_simp+
  with normalize_idempotent_unless_fenced [of "''```mermaid\<newline>A-->B\<newline>```''"] n
  show ?thesis by simp
qed

text \<open>
  C4 as stated fails: a fenced diagram followed by a line break keeps its closing fence in
  the first pass (the \<^verbatim>\<open>$\<close> of the pattern is tried before the trim) and loses it in the
  second.
\<close>

theorem normalize_not_idempotent:
  "normalize (normalize ''```mermaid\<newline>A-->B\<newline>```\<newline>'')
     \<noteq> normalize ''```mermaid\<newline>A-->B\<newline>```\<newline>''"
  by code_simp

section \<open>Properties of the stream loop\<close>

lemma texts_Nil: "texts [] = []"
  by (simp add: texts_def map_filter_simps)

lemma texts_Cons: "texts (p # ps) = (case textOf p of None \<Rightarrow> texts ps | Some t \<Rightarrow> t # texts ps)"
  by (simp add: texts_def map_filter_simps split: option.splits)

lemma proseSink_simps:
  "proseSink [] = []"
  "proseSink (es @ [Markdown s]) = proseSink es @ [s]"
  "proseSink (es @ [Progress s]) = proseSink es"
  by (simp_all add: proseSink_def map_filter_def)

lemma initialVars_simps:
  "\<not> isMermaidDiagramStreamingIn initialVars" "mermaidDiagram initialVars = []"
  "streamed initialVars = []"
  by (simp_all add: initialVars_def)

lemma onPart_capturing:
  "isMermaidDiagramStreamingIn v \<Longrightarrow>
     isMermaidDiagramStreamingIn (onPart v p) \<and> streamed (onPart v p) = streamed v \<and>
     mermaidDiagram (onPart v p) = mermaidDiagram v @ (case textOf p of None \<Rightarrow> [] | Some t \<Rightarrow> t)"
  by (simp add: onPart_def onTextPart_def textOf_def split: ResponsePart.splits)

lemma foldl_capturing:
  "isMermaidDiagramStreamingIn v \<Longrightarrow>
     streamed (foldl onPart v ps) = streamed v \<and>
     mermaidDiagram (foldl onPart v ps) = mermaidDiagram v @ concat (texts ps)"
proof (induction ps arbitrary: v)
  case Nil
  then show ?case by (simp add: texts_Nil)
next
  case (Cons p ps)
  from onPart_capturing [OF Cons.prems, of p] Cons.IH [of "onPart v p"]
  show ?case by (simp add: texts_Cons split: option.splits)
qed

lemma onPart_prose:
  "\<not> isMermaidDiagramStreamingIn v \<Longrightarrow> (\<forall>t. textOf p = Some t \<longrightarrow> \<not> includesStr t ''``'') \<Longrightarrow>
     \<not> isMermaidDiagramStreamingIn (onPart v p) \<and> mermaidDiagram (onPart v p) = mermaidDiagram v \<and>
     proseSink (streamed (onPart v p))
       = proseSink (streamed v) @ (case textOf p of None \<Rightarrow> [] | Some t \<Rightarrow> [t])"
  by (auto simp add: onPart_def onTextPart_def textOf_def proseSink_simps
      split: ResponsePart.splits)

lemma foldl_prose:
  "\<not> isMermaidDiagramStreamingIn v \<Longrightarrow>
   (\<forall>p\<in>set ps. \<forall>t. textOf p = Some t \<longrightarrow> \<not> includesStr t ''``'') \<Longrightarrow>
     \<not> isMermaidDiagramStreamingIn (foldl onPart v ps) \<and>
     mermaidDiagram (foldl onPart v ps) = mermaidDiagram v \<and>
     proseSink (streamed (foldl onPart v ps)) = proseSink (streamed v) @ texts ps"
proof (induction ps arbitrary: v)
  case Nil
  then show ?case by (simp add: texts_Nil)
next
  case (Cons p ps)
  have p: "\<forall>t. textOf p = Some t \<longrightarrow> \<not> includesStr t ''``''"
    using Cons.prems(2) by simp
  have ps: "\<forall>q\<in>set ps. \<forall>t. textOf q = Some t \<longrightarrow> \<not> includesStr t ''``''"
    using Cons.prems(2) by simp
  from onPart_prose [OF Cons.prems(1) p] Cons.IH [of "onPart v p", OF _ ps]
  show ?case by (simp add: texts_Cons split: option.splits)
qed

lemma onPart_trigger:
  "\<not> isMermaidDiagramStreamingIn v \<Longrightarrow> textOf p = Some t \<Longrightarrow> includesStr t ''``'' \<Longrightarrow>
     isMermaidDiagramStreamingIn (onPart v p) \<and> mermaidDiagram (onPart v p) = mermaidDiagram v @ t \<and>
     proseSink (streamed (onPart v p)) = proseSink (streamed v)"
  by (auto simp add: onPart_def onTextPart_def textOf_def proseSink_simps
      split: ResponsePart.splits)

text \<open>
  C2: let the chunk sequence be \<open>pre @ pk # post\<close>, where no text chunk of \<open>pre\<close> contains
  two consecutive backticks and the text of \<open>pk\<close> does. Then the diagram buffer is the
  concatenation of the texts of \<open>pk\<close> and of every later chunk, and the calls of
  \<^verbatim>\<open>stream.markdown\<close> are exactly the texts of \<open>pre\<close>, in order. A sequence \<open>pre\<close> without the
  marker leaves the buffer empty and forwards each of its texts.
\<close>

theorem fence_open_splits_stream:
  assumes pre: "\<forall>p\<in>set pre. \<forall>t. textOf p = Some t \<longrightarrow> \<not> includesStr t ''``''"
  shows "(mermaidDiagram (streamLoop pre) = [] \<and> proseSink (streamed (streamLoop pre)) = texts pre) \<and>
         (textOf pk = Some t \<and> includesStr t ''``'' \<longrightarrow>
            mermaidDiagram (streamLoop (pre @ pk # post)) = concat (texts (pk # post)) \<and>
            proseSink (streamed (streamLoop (pre @ pk # post))) = texts pre)"
proof -
  let ?v = "foldl onPart initialVars pre"
  have A: "\<not> isMermaidDiagramStreamingIn ?v \<and> mermaidDiagram ?v = []
           \<and> proseSink (streamed ?v) = texts pre"
    using foldl_prose [OF initialVars_simps(1) pre] by (simp add: initialVars_simps proseSink_simps)
  have B: "mermaidDiagram (foldl onPart ?v (pk # post)) = concat (texts (pk # post)) \<and>
           proseSink (streamed (foldl onPart ?v (pk # post))) = texts pre"
    if k: "textOf pk = Some t" "includesStr t ''``''"
  proof -
    from A onPart_trigger [of ?v pk t] k
    have T: "isMermaidDiagramStreamingIn (onPart ?v pk)" "mermaidDiagram (onPart ?v pk) = t"
      "proseSink (streamed (onPart ?v pk)) = texts pre"
      by simp_all
    from foldl_capturing [OF T(1), of post] T(2,3) k(1)
    show ?thesis by (simp add: texts_Cons)
  qed
  from A B show ?thesis by (simp add: streamLoop_def)
qed

theorem fence_open_splits_stream_witness:
  "mermaidDiagram (streamLoop
      [LanguageModelTextPart ''Here is '', GroqChunk (Some ''a `result`:''),
       LanguageModelTextPart ''```mermaid'', ToolCallPart symbolCall,
       LanguageModelTextPart ''A-->B'', GroqChunk (Some ''```''), LanguageModelTextPart ''Done.''])
     = ''```mermaidA-->B```Done.''
   \<and> proseSink (streamed (streamLoop
      [LanguageModelTextPart ''Here is '', GroqChunk (Some ''a `result`:''),
       LanguageModelTextPart ''```mermaid'', ToolCallPart symbolCall,
       LanguageModelTextPart ''A-->B'', GroqChunk (Some ''```''), LanguageModelTextPart ''Done.'']))
     = [''Here is '', ''a `result`:'']"
  using fence_open_splits_stream
    [of "[LanguageModelTextPart ''Here is '', GroqChunk (Some ''a `result`:'')]"
        "LanguageModelTextPart ''```mermaid''" "''```mermaid''"
        "[ToolCallPart symbolCall, LanguageModelTextPart ''A-->B'', GroqChunk (Some ''```''),
          LanguageModelTextPart ''Done.'']"]
  by (simp add: textOf_def texts_Cons texts_Nil)

section \<open>Properties of the panel\<close>

text \<open>
  C3: when the content of the candidate contains \<^verbatim>\<open>```\<close>, \<^verbatim>\<open>createOrShow\<close> returns the
  failure \<^verbatim>\<open>diagram contains extra ``` characters\<close> at once: the validation page is never
  loaded into the webview (its HTML is what it was, or blank for a new panel) and neither
  the clock nor any webview event is consulted.
\<close>

theorem fenced_body_fails_before_render:
  assumes "includesStr (content d) fence"
  shows "createOrShow cur d clock evs =
           (Some (Failure extraFenceError),
            (case cur of Some p \<Rightarrow> p\<lparr>diagram := d\<rparr> | None \<Rightarrow> newDiagramEditorPanel d))
         \<and> webviewHtml (snd (createOrShow cur d clock evs))
             = (case cur of Some p \<Rightarrow> webviewHtml p | None \<Rightarrow> Blank)"
  using assms
  by (simp add: createOrShow_def validate_def newDiagramEditorPanel_def split: option.splits)

theorem fenced_body_fails_before_render_witness:
  "createOrShow (Some \<lparr>diagram = Diagram ''A-->B'', panelTitle = ''@mermAId Diagram'',
                        webviewHtml = HtmlForWebview ''A-->B'', parseDetails = [ParseSuccess ''7'']\<rparr>)
     (newDiagram ''```mermaid\<newline>A-->C\<newline>```\<newline>'') ''8''
     [ParseResultMessage (ParseSuccess ''8''), IntervalTick]
   = (Some (Failure ''diagram contains extra ``` characters''),
      \<lparr>diagram = Diagram ''A-->C\<newline>```'', panelTitle = ''@mermAId Diagram'',
        webviewHtml = HtmlForWebview ''A-->B'', parseDetails = [ParseSuccess ''7'']\<rparr>)"
proof -
  have n: "newDiagram ''```mermaid\<newline>A-->C\<newline>```\<newline>'' = Diagram ''A-->C\<newline>```''"
    by code_simp
  have i: "includesStr (content (Diagram ''A-->C\<newline>```'')) fence"
    by code_simp
  from fenced_body_fails_before_render [OF i, of "Some \<lparr>diagram = Diagram ''A-->B'', panelTitle = ''@mermAId Diagram'',
                        webviewHtml = HtmlForWebview ''A-->B'', parseDetails = [ParseSuccess ''7'']\<rparr>" "''8''"
     "[ParseResultMessage (ParseSuccess ''8''), IntervalTick]"] n
  show ?thesis by (simp add: extraFenceError_def)
qed

lemma pollEvent_diagram: "diagram (polledPanel (pollEvent n ps ev)) = diagram (polledPanel ps)"
  by (cases ev) (simp_all split: option.splits ParseDetails.splits)

lemma foldl_pollEvent_diagram:
  "diagram (polledPanel (foldl (pollEvent n) ps evs)) = diagram (polledPanel ps)"
  by (induction evs arbitrary: ps) (simp_all add: pollEvent_diagram)

lemma validate_diagram:
  "diagram (snd (validate p dopt clock evs)) = (case dopt of Some d \<Rightarrow> d | None \<Rightarrow> diagram p)"
  by (simp add: validate_def Let_def waitForParseDetails_def foldl_pollEvent_diagram split: option.splits)

lemma createOrShow_diagram: "diagram (snd (createOrShow cur d clock evs)) = d"
  by (simp add: createOrShow_def validate_diagram newDiagramEditorPanel_def split: option.splits)

text \<open>
  C10: \<^verbatim>\<open>_validate\<close> stores the candidate in the panel before it checks anything, and
  nothing later restores the previous diagram. So when \<^verbatim>\<open>createOrShow\<close> on an existing
  panel returns a failure, the diagram of the panel is the failing candidate.
\<close>

theorem failed_candidate_is_panel_diagram:
  "createOrShow (Some p) d clock evs = (Some (Failure e), p') \<Longrightarrow> diagram p' = d"
  using createOrShow_diagram [of "Some p" d clock evs] by simp

theorem failed_candidate_is_panel_diagram_witness:
  "diagram (snd (createOrShow
      (Some \<lparr>diagram = Diagram ''A-->B'', panelTitle = ''@mermAId Diagram'',
              webviewHtml = HtmlForWebview ''A-->B'', parseDetails = [ParseSuccess ''7'']\<rparr>)
      (Diagram ''A-->'') ''8''
      [ParseResultMessage (ParseFailure ''Parse error on line 1'' ''8'' None), IntervalTick]))
   = Diagram ''A-->''
   \<and> fst (createOrShow
      (Some \<lparr>diagram = Diagram ''A-->B'', panelTitle = ''@mermAId Diagram'',
              webviewHtml = HtmlForWebview ''A-->B'', parseDetails = [ParseSuccess ''7'']\<rparr>)
      (Diagram ''A-->'') ''8''
      [ParseResultMessage (ParseFailure ''Parse error on line 1'' ''8'' None), IntervalTick])
   = Some (Failure ''Parse error on line 1'')"
proof -
  let ?p = "\<lparr>diagram = Diagram ''A-->B'', panelTitle = ''@mermAId Diagram'',
              webviewHtml = HtmlForWebview ''A-->B'', parseDetails = [ParseSuccess ''7'']\<rparr>"
  let ?evs = "[ParseResultMessage (ParseFailure ''Parse error on line 1'' ''8'' None), IntervalTick]"
  have f: "fst (createOrShow (Some ?p) (Diagram ''A-->'') ''8'' ?evs) = Some (Failure ''Parse error on line 1'')"
    by code_simp
  then have "createOrShow (Some ?p) (Diagram ''A-->'') ''8'' ?evs
     = (Some (Failure ''Parse error on line 1''), snd (createOrShow (Some ?p) (Diagram ''A-->'') ''8'' ?evs))"
    by (metis prod.collapse)
  from failed_candidate_is_panel_diagram [OF this] f show ?thesis by simp
qed








section \<open>Properties of the chat loop\<close>

lemma modelInvocations_simps:
  "modelInvocations [] = 0"
  "modelInvocations (es @ fs) = modelInvocations es + modelInvocations fs"
  "modelInvocations (Markdown s # es) = modelInvocations es"
  "modelInvocations (Progress s # es) = modelInvocations es"
  "modelInvocations (Button s # es) = modelInvocations es"
  "modelInvocations (LogMessage s # es) = modelInvocations es"
  "modelInvocations (RenderPrompt rounds results # es) = modelInvocations es"
  "modelInvocations (SendRequest ms # es) = Suc (modelInvocations es)"
  "modelInvocations (GroqCreate gs # es) = Suc (modelInvocations es)"
  by (simp_all add: modelInvocations_def)

lemma runWithFunctions_nothingToIterate:
  "nothingToIterate rq st \<Longrightarrow>
     runWithFunctions rq st rs = (NoDiagramToIterate, emit [Markdown noDiagramText] st)"
  by (cases rs) simp_all

text \<open>
  C5: a turn whose command is \<^verbatim>\<open>iterate\<close>, started when there is no panel and hence no
  diagram, ends at the first check of \<^verbatim>\<open>runWithFunctions\<close>: the only thing added to the
  effects of the start is the explanatory message, and the model is never invoked, whatever
  responses it would have given.
\<close>

theorem iterate_without_diagram_abandons:
  assumes "command rq = Some ''iterate''"
  shows "chatRequestHandler rq None rs
           = (NoDiagramToIterate, emit [Markdown noDiagramText] (startTurn rq None))
         \<and> modelInvocations (effects (snd (chatRequestHandler rq None rs))) = 0"
proof -
  have "nothingToIterate rq (startTurn rq None)"
    using assms by (simp add: nothingToIterate_def startTurn_def)
  then have "chatRequestHandler rq None rs
           = (NoDiagramToIterate, emit [Markdown noDiagramText] (startTurn rq None))"
    unfolding chatRequestHandler_def by (rule runWithFunctions_nothingToIterate)
  then show ?thesis
    by (simp add: emit_def startTurn_def modelInvocations_simps)
qed

theorem iterate_without_diagram_abandons_witness:
  "fst (chatRequestHandler iterateRequest None [acceptedRound ''A-->B'' ''1'']) = NoDiagramToIterate
   \<and> effects (snd (chatRequestHandler iterateRequest None [acceptedRound ''A-->B'' ''1'']))
       = [RenderPrompt [] [],
          Markdown ''No diagram found in editor view. Please create a diagram first to iterate on it.'']"
  using iterate_without_diagram_abandons [of iterateRequest "[acceptedRound ''A-->B'' ''1'']"]
  by (simp add: iterateRequest_def plainRequest_def emit_def startTurn_def noDiagramText_def)

lemma turn_simps:
  "messages (emit es st) = messages st" "retries (emit es st) = retries st"
  "accumulatedToolResults (emit es st) = accumulatedToolResults st"
  "toolCallRounds (emit es st) = toolCallRounds st" "currentPanel (emit es st) = currentPanel st"
  "effects (emit es st) = effects st @ es"
  "messages (push m st) = messages st @ [m]" "retries (push m st) = retries st"
  "accumulatedToolResults (push m st) = accumulatedToolResults st"
  "toolCallRounds (push m st) = toolCallRounds st" "currentPanel (push m st) = currentPanel st"
  "effects (push m st) = effects st"
  by (simp_all add: emit_def push_def)

text \<open>
  C6, as the code has it: on the first validation failure of a turn exactly one corrective
  instruction is pushed, the one about the missing keyword when the raw diagram buffer does
  not contain the word \<^verbatim>\<open>mermaid\<close> anywhere, the one about nested definitions otherwise;
  on a later failure neither is pushed. The request to fix the parse error follows while
  the new count is below 4.
\<close>

theorem corrective_instruction_on_first_failure_only:
  "messages (turnOf (handleParseError st md err))
     = messages st
       @ (if retries st = 0
          then [User (if includesStr md ''mermaid'' then nestingContextText else addKeywordText)]
          else [])
       @ (if Suc (retries st) < 4 then [User (fixText err md)] else [])"
  by (simp add: handleParseError_def Let_def turn_simps addNestingContext_def)

text \<open>
  C6 as stated fails: a buffer whose opening fence is not followed by the keyword, but which
  contains the word elsewhere, gets the instruction about nested definitions on the first
  failure, not the one about the keyword.
\<close>

theorem nesting_instruction_despite_missing_keyword:
  "\<not> keywordAfterOpeningFence unlabelledDiagram
   \<and> messages (turnOf (handleParseError freshTurn unlabelledDiagram ''Parse error on line 2''))
       = messages freshTurn
         @ [User nestingContextText, User (fixText ''Parse error on line 2'' unlabelledDiagram)]
   \<and> User addKeywordText
       \<notin> set (messages (turnOf (handleParseError freshTurn unlabelledDiagram ''Parse error on line 2'')))"
proof -
  have k: "\<not> keywordAfterOpeningFence unlabelledDiagram"
    by code_simp
  have r: "retries freshTurn = 0" "messages freshTurn = [User ''draw the classes'']"
    by (simp_all add: freshTurn_def startTurn_def renderPrompt_def plainRequest_def)
  have i: "includesStr unlabelledDiagram ''mermaid''"
    by code_simp
  have m: "messages (turnOf (handleParseError freshTurn unlabelledDiagram ''Parse error on line 2''))
       = messages freshTurn
         @ [User nestingContextText, User (fixText ''Parse error on line 2'' unlabelledDiagram)]"
    by (simp add: handleParseError_def Let_def turn_simps addNestingContext_def r i)
  have d: "addKeywordText \<noteq> nestingContextText" "addKeywordText \<noteq> ''draw the classes''"
    "addKeywordText \<noteq> fixText ''Parse error on line 2'' unlabelledDiagram"
    by (simp_all add: addKeywordText_def nestingContextText_def fixText_def)
  from k m d show ?thesis by (simp add: r User_def)
qed

theorem corrective_instruction_on_first_failure_only_witness:
  "messages (turnOf (handleParseError freshTurn ''```\<newline>A-->'' ''Parse error''))
     = [User ''draw the classes'', User addKeywordText, User (fixText ''Parse error'' ''```\<newline>A-->'')]
   \<and> messages (turnOf (handleParseError (freshTurn\<lparr>retries := 1\<rparr>) ''```\<newline>A-->'' ''Parse error''))
     = [User ''draw the classes'', User (fixText ''Parse error'' ''```\<newline>A-->'')]"
proof -
  have r: "retries freshTurn = 0" "messages freshTurn = [User ''draw the classes'']"
    by (simp_all add: freshTurn_def startTurn_def renderPrompt_def plainRequest_def)
  have i: "\<not> includesStr ''```\<newline>A-->'' ''mermaid''"
    by code_simp
  from corrective_instruction_on_first_failure_only [of freshTurn "''```\<newline>A-->''" "''Parse error''"]
    corrective_instruction_on_first_failure_only
      [of "freshTurn\<lparr>retries := 1\<rparr>" "''```\<newline>A-->''" "''Parse error''"]
  show ?thesis by (simp add: r i)
qed

lemma callModel_Inr:
  assumes "callModel rq st = Inr st1"
  shows "messages st1 = messages st" "retries st1 = retries st"
    "accumulatedToolResults st1 = accumulatedToolResults st"
    "toolCallRounds st1 = toolCallRounds st" "currentPanel st1 = currentPanel st"
    "modelInvocations (effects st1) = Suc (modelInvocations (effects st))"
    "\<exists>es. effects st1 = effects st @ es \<and> Progress ''Validating mermaid diagram'' \<notin> set es"
  using assms
  by (auto simp add: callModel_def turn_simps modelInvocations_simps split: if_splits option.splits)

lemma toolCallBranch_simps:
  "toolCallRounds (toolCallBranch rq st resp calls)
     = toolCallRounds st @ [\<lparr>response = resp, toolCalls = calls\<rparr>]"
  "messages (toolCallBranch rq st resp calls)
     = promptMessages rq (toolCallRounds st @ [\<lparr>response = resp, toolCalls = calls\<rparr>])
         (accumulatedToolResults st) (map_option diagram (currentPanel st))"
  "accumulatedToolResults (toolCallBranch rq st resp calls)
     = foldResults (accumulatedToolResults st)
         (map (toolResultFor (invokeTool rq) (accumulatedToolResults st))
            (concat (map toolCalls (toolCallRounds st @ [\<lparr>response = resp, toolCalls = calls\<rparr>]))))"
  "retries (toolCallBranch rq st resp calls) = retries st"
  "currentPanel (toolCallBranch rq st resp calls) = currentPanel st"
  "effects (toolCallBranch rq st resp calls)
     = effects st @ [RenderPrompt (toolCallRounds st @ [\<lparr>response = resp, toolCalls = calls\<rparr>])
                       (accumulatedToolResults st)]"
  by (simp_all add: toolCallBranch_def Let_def renderPrompt_def)

lemma modelRound_toolCalls:
  assumes "callModel rq st = Inr st1" and "streamError r = None"
    and "streamToolCalls (streamLoop (parts r)) \<noteq> []"
  shows "modelRound rq st r
           = Reenter (toolCallBranch rq (emit (streamed (streamLoop (parts r))) st1)
                        (responseStr (streamLoop (parts r))) (streamToolCalls (streamLoop (parts r))))"
  using assms by (simp add: modelRound_def Let_def)

lemma onPart_streamed:
  "set (streamed (onPart v p)) \<subseteq> set (streamed v) \<union> range Markdown \<union> {Progress capturingProgress}"
  by (auto simp add: onPart_def onTextPart_def Let_def split: ResponsePart.splits)

lemma foldl_onPart_streamed:
  "set (streamed (foldl onPart v ps)) \<subseteq> set (streamed v) \<union> range Markdown \<union> {Progress capturingProgress}"
proof (induction ps arbitrary: v)
  case Nil
  then show ?case by auto
next
  case (Cons p ps)
  from Cons.IH [of "onPart v p"] onPart_streamed [of v p] show ?case by auto
qed

lemma streamLoop_streamed:
  "set (streamed (streamLoop ps)) \<subseteq> range Markdown \<union> {Progress capturingProgress}"
  using foldl_onPart_streamed [of initialVars ps] by (simp add: streamLoop_def initialVars_simps)

lemma streamLoop_not_validating:
  "Progress ''Validating mermaid diagram'' \<notin> set (streamed (streamLoop ps))"
proof
  assume "Progress ''Validating mermaid diagram'' \<in> set (streamed (streamLoop ps))"
  with streamLoop_streamed [of ps]
  have "Progress ''Validating mermaid diagram'' \<in> range Markdown \<union> {Progress capturingProgress}"
    by blast
  then show False by (auto simp add: capturingProgress_def)
qed

text \<open>
  C9: when a response that the loop receives carries a tool call, \<^verbatim>\<open>runWithFunctions\<close>
  re-enters from the state of the tool-call branch, which is built from the prose and the
  tool calls only. The diagram buffer of that response is used nowhere: the panel and the
  retry counter are what they were, and the effects of the round are the model request, the
  streamed prose and the prompt construction, with no validation among them. On re-entry
  the buffer starts empty.
\<close>

theorem tool_call_response_is_never_validated:
  assumes "\<not> nothingToIterate rq st" and "callModel rq st = Inr st1" and "streamError r = None"
    and "streamToolCalls (streamLoop (parts r)) \<noteq> []"
  shows "let v = streamLoop (parts r);
             st' = toolCallBranch rq (emit (streamed v) st1) (responseStr v) (streamToolCalls v)
         in modelRound rq st r = Reenter st'
            \<and> runWithFunctions rq st (r # rs) = runWithFunctions rq st' rs
            \<and> currentPanel st' = currentPanel st \<and> retries st' = retries st
            \<and> effects st' = effects st1 @ streamed v
                 @ [RenderPrompt (toolCallRounds st') (accumulatedToolResults st)]
            \<and> Progress ''Validating mermaid diagram'' \<notin> set (drop (length (effects st)) (effects st'))
            \<and> mermaidDiagram initialVars = []"
proof -
  let ?v = "streamLoop (parts r)"
  let ?st' = "toolCallBranch rq (emit (streamed ?v) st1) (responseStr ?v) (streamToolCalls ?v)"
  note m = modelRound_toolCalls [OF assms(2,3,4)]
  from callModel_Inr(7) [OF assms(2)] obtain es where
    es: "effects st1 = effects st @ es" "Progress ''Validating mermaid diagram'' \<notin> set es"
    by blast
  have e: "effects ?st' = effects st1 @ streamed ?v
                 @ [RenderPrompt (toolCallRounds ?st') (accumulatedToolResults st)]"
    by (simp add: toolCallBranch_simps turn_simps callModel_Inr [OF assms(2)])
  have "drop (length (effects st)) (effects ?st')
          = es @ streamed ?v @ [RenderPrompt (toolCallRounds ?st') (accumulatedToolResults st)]"
    unfolding e es(1) by simp
  then have n: "Progress ''Validating mermaid diagram'' \<notin> set (drop (length (effects st)) (effects ?st'))"
    using es(2) streamLoop_not_validating [of "parts r"] by simp
  have "runWithFunctions rq st (r # rs) = runWithFunctions rq ?st' rs"
    using assms(1) m by simp
  with m e n show ?thesis
    by (simp add: Let_def toolCallBranch_simps turn_simps callModel_Inr [OF assms(2)] initialVars_simps)
qed

theorem tool_call_response_is_never_validated_witness:
  "mermaidDiagram (streamLoop (parts toolCallRound)) = ''```mermaid\<newline>classDiagram\<newline>```''
   \<and> currentPanel (turnOf (modelRound plainRequest freshTurn toolCallRound)) = None
   \<and> runWithFunctions plainRequest freshTurn [toolCallRound]
       = (AwaitingModel, turnOf (modelRound plainRequest freshTurn toolCallRound))"
proof -
  have h1: "\<not> nothingToIterate plainRequest freshTurn"
    by (simp add: nothingToIterate_def plainRequest_def)
  have h2: "callModel plainRequest freshTurn = Inr (emit [SendRequest (messages freshTurn)] freshTurn)"
    by (simp add: callModel_def groqEnabled_def plainRequest_def)
  have h3: "streamError toolCallRound = None"
    by (simp add: toolCallRound_def)
  have h4: "streamToolCalls (streamLoop (parts toolCallRound)) \<noteq> []"
    by code_simp
  have d: "mermaidDiagram (streamLoop (parts toolCallRound)) = ''```mermaid\<newline>classDiagram\<newline>```''"
    by code_simp
  have c: "currentPanel freshTurn = None"
    by (simp add: freshTurn_def startTurn_def)
  have n: "command plainRequest = None"
    by (simp add: plainRequest_def)
  from tool_call_response_is_never_validated [OF h1 h2 h3 h4, of "[]"] d c
  show ?thesis by (simp add: Let_def nothingToIterate_def n)
qed

lemma update_map_le:
  assumes "map_of acc \<subseteq>\<^sub>m map_of a" and "map_of acc k = None \<or> map_of acc k = Some v"
  shows "map_of acc \<subseteq>\<^sub>m map_of (AList.update k v a)"
  using assms by (auto simp add: map_le_def update_conv' dom_def)

lemma foldResults_map_le:
  assumes "\<forall>m\<in>set metas. map_of acc (fst m) = None \<or> map_of acc (fst m) = Some (snd m)"
    and "map_of acc \<subseteq>\<^sub>m map_of a"
  shows "map_of acc \<subseteq>\<^sub>m map_of (foldResults a metas)"
  using assms
proof (induction metas arbitrary: a)
  case Nil
  then show ?case by (simp add: foldResults_def)
next
  case (Cons m metas)
  have "map_of acc \<subseteq>\<^sub>m map_of (AList.update (fst m) (snd m) a)"
    using Cons.prems by (intro update_map_le) simp_all
  with Cons.IH [of "AList.update (fst m) (snd m) a"] Cons.prems(1)
  show ?case by (simp add: foldResults_def)
qed

lemma foldResults_dom:
  "dom (map_of (foldResults a metas)) = dom (map_of a) \<union> fst ` set metas"
proof (induction metas arbitrary: a)
  case Nil
  then show ?case by (simp add: foldResults_def)
next
  case (Cons m metas)
  from Cons.IH [of "AList.update (fst m) (snd m) a"]
  show ?case by (auto simp add: foldResults_def update_conv')
qed

lemma toolResultFor_consistent:
  "\<forall>m\<in>set (map (toolResultFor invoke acc) calls).
      map_of acc (fst m) = None \<or> map_of acc (fst m) = Some (snd m)"
  by (auto simp add: toolResultFor_def split: option.splits)

lemma toolResultFor_ids:
  "fst ` set (map (toolResultFor invoke acc) calls) = callId ` set calls"
  by (force simp add: toolResultFor_def)

lemma toolCallBranch_results_grow:
  "map_of (accumulatedToolResults st) \<subseteq>\<^sub>m map_of (accumulatedToolResults (toolCallBranch rq st resp calls))"
  unfolding toolCallBranch_simps
  by (rule foldResults_map_le [OF toolResultFor_consistent]) simp

lemma handleParseError_results:
  "accumulatedToolResults (turnOf (handleParseError st md err)) = accumulatedToolResults st"
  by (simp add: handleParseError_def Let_def turn_simps addNestingContext_def)

lemma validateBranch_results:
  "accumulatedToolResults (turnOf (validateBranch st md clock evs)) = accumulatedToolResults st"
  by (simp add: validateBranch_def Let_def turn_simps handleParseError_results
      split: option.splits ValidateResult.splits)

lemma modelRound_results_grow:
  "map_of (accumulatedToolResults st) \<subseteq>\<^sub>m map_of (accumulatedToolResults (turnOf (modelRound rq st r)))"
proof (cases "callModel rq st")
  case (Inl e)
  then show ?thesis by (simp add: modelRound_def)
next
  case (Inr st1)
  note f = callModel_Inr [OF Inr]
  show ?thesis
  proof (cases "streamError r")
    case (Some e)
    with Inr f show ?thesis by (simp add: modelRound_def Let_def turn_simps)
  next
    case None
    show ?thesis
    proof (cases "streamToolCalls (streamLoop (parts r)) = []")
      case True
      with Inr None f show ?thesis
        by (simp add: modelRound_def Let_def validateBranch_results turn_simps)
    next
      case False
      from toolCallBranch_results_grow
        [of "emit (streamed (streamLoop (parts r))) st1" rq "responseStr (streamLoop (parts r))"
            "streamToolCalls (streamLoop (parts r))"]
      show ?thesis
        unfolding modelRound_toolCalls [OF Inr None False] by (simp add: turn_simps f)
    qed
  qed
qed

lemma runWithFunctions_results_grow:
  "map_of (accumulatedToolResults st) \<subseteq>\<^sub>m map_of (accumulatedToolResults (snd (runWithFunctions rq st rs)))"
proof (induction rs arbitrary: st)
  case Nil
  then show ?case by (simp add: turn_simps)
next
  case (Cons r rs)
  show ?case
  proof (cases "nothingToIterate rq st")
    case True
    then show ?thesis by (simp add: turn_simps)
  next
    case False
    show ?thesis
    proof (cases "modelRound rq st r")
      case (Reenter st')
      from modelRound_results_grow [of st rq r] Reenter
      have "map_of (accumulatedToolResults st) \<subseteq>\<^sub>m map_of (accumulatedToolResults st')" by simp
      with Cons.IH [of st'] have
        "map_of (accumulatedToolResults st)
           \<subseteq>\<^sub>m map_of (accumulatedToolResults (snd (runWithFunctions rq st' rs)))"
        by (blast intro: map_le_trans)
      with False Reenter show ?thesis by simp
    next
      case (Return out st')
      from modelRound_results_grow [of st rq r] Return False show ?thesis by simp
    qed
  qed
qed

lemma toolCallParts_Nil: "toolCallParts [] = []"
  by (simp add: toolCallParts_def map_filter_simps)

lemma toolCallParts_Cons:
  "toolCallParts (p # ps) = (case toolCallOf p of None \<Rightarrow> [] | Some tc \<Rightarrow> [tc]) @ toolCallParts ps"
  by (simp add: toolCallParts_def map_filter_simps split: option.splits)

lemma onPart_toolCalls:
  "streamToolCalls (onPart v p)
     = streamToolCalls v @ (case toolCallOf p of None \<Rightarrow> [] | Some tc \<Rightarrow> [tc])"
  by (cases p rule: adaptGroq.cases) (simp_all add: onPart_def onTextPart_def Let_def)

lemma foldl_onPart_toolCalls:
  "streamToolCalls (foldl onPart v ps) = streamToolCalls v @ toolCallParts ps"
proof (induction ps arbitrary: v)
  case Nil
  then show ?case by (simp add: toolCallParts_Nil)
next
  case (Cons p ps)
  from Cons.IH [of "onPart v p"] show ?case
    by (simp add: onPart_toolCalls toolCallParts_Cons)
qed

lemma streamLoop_toolCalls: "streamToolCalls (streamLoop ps) = toolCallParts ps"
  by (simp add: streamLoop_def foldl_onPart_toolCalls initialVars_def)

lemma onPart_responseStr_capturing:
  "isMermaidDiagramStreamingIn v \<Longrightarrow> responseStr (onPart v p) = responseStr v"
  by (simp add: onPart_def onTextPart_def split: ResponsePart.splits)

lemma foldl_responseStr_capturing:
  "isMermaidDiagramStreamingIn v \<Longrightarrow> responseStr (foldl onPart v ps) = responseStr v"
proof (induction ps arbitrary: v)
  case Nil
  then show ?case by simp
next
  case (Cons p ps)
  from onPart_capturing [OF Cons.prems, of p] have "isMermaidDiagramStreamingIn (onPart v p)"
    by simp
  from Cons.IH [OF this] onPart_responseStr_capturing [OF Cons.prems, of p]
  show ?case by simp
qed

lemma onPart_responseStr_prose:
  assumes "\<not> isMermaidDiagramStreamingIn v"
  shows "textOf p = None \<Longrightarrow>
           \<not> isMermaidDiagramStreamingIn (onPart v p) \<and> responseStr (onPart v p) = responseStr v"
    and "textOf p = Some t \<Longrightarrow> \<not> includesStr t ''``'' \<Longrightarrow>
           \<not> isMermaidDiagramStreamingIn (onPart v p) \<and> responseStr (onPart v p) = responseStr v @ t"
    and "textOf p = Some t \<Longrightarrow> includesStr t ''``'' \<Longrightarrow>
           isMermaidDiagramStreamingIn (onPart v p) \<and> responseStr (onPart v p) = responseStr v"
  using assms
  by (auto simp add: onPart_def onTextPart_def textOf_def split: ResponsePart.splits)

lemma proseOf_Nil: "proseOf [] = []"
  by (simp add: proseOf_def texts_Nil)

lemma proseOf_Cons:
  "proseOf (p # ps)
     = (case textOf p of
          None \<Rightarrow> proseOf ps
        | Some t \<Rightarrow> if includesStr t ''``'' then [] else t @ proseOf ps)"
  by (simp add: proseOf_def texts_Cons split: option.splits)

lemma foldl_responseStr_prose:
  "\<not> isMermaidDiagramStreamingIn v \<Longrightarrow> responseStr (foldl onPart v ps) = responseStr v @ proseOf ps"
proof (induction ps arbitrary: v)
  case Nil
  then show ?case by (simp add: proseOf_Nil)
next
  case (Cons p ps)
  show ?case
  proof (cases "textOf p")
    case None
    from onPart_responseStr_prose(1) [OF Cons.prems None] Cons.IH [of "onPart v p"]
    show ?thesis by (simp add: proseOf_Cons None)
  next
    case (Some t)
    show ?thesis
    proof (cases "includesStr t ''``''")
      case True
      from onPart_responseStr_prose(3) [OF Cons.prems Some True]
        foldl_responseStr_capturing [of "onPart v p" ps]
      show ?thesis by (simp add: proseOf_Cons Some True)
    next
      case False
      from onPart_responseStr_prose(2) [OF Cons.prems Some False] Cons.IH [of "onPart v p"]
      show ?thesis by (simp add: proseOf_Cons Some False)
    qed
  qed
qed

lemma streamLoop_responseStr: "responseStr (streamLoop ps) = proseOf ps"
  using foldl_responseStr_prose [of initialVars ps]
  by (simp add: streamLoop_def initialVars_def)

text \<open>
  C7: when a response that the loop receives issues a tool call, the tool-call branch
  appends exactly one round, holding the prose of that response (its texts up to the first
  one with two consecutive backticks, concatenated) and all of its tool calls in order. It
  constructs the prompt from the whole round history and the results accumulated so far,
  stores every result returned under its call identifier, and re-enters the loop. Every
  call of the history then has a result; a result that was recorded keeps its value, in
  this round and up to the end of the turn.
\<close>

theorem tool_round_recorded_and_results_kept:
  assumes "callModel rq st = Inr st1" and "streamError r = None"
    and "toolCallParts (parts r) \<noteq> []"
  shows "let st' = turnOf (modelRound rq st r);
             rounds = toolCallRounds st
                        @ [\<lparr>response = proseOf (parts r), toolCalls = toolCallParts (parts r)\<rparr>];
             result = renderPrompt rq rounds (accumulatedToolResults st)
                        (map_option diagram (currentPanel st))
         in modelRound rq st r = Reenter st'
            \<and> runWithFunctions rq st (r # rs)
                 = (if nothingToIterate rq st
                    then (NoDiagramToIterate, emit [Markdown noDiagramText] st)
                    else runWithFunctions rq st' rs)
            \<and> toolCallRounds st' = rounds
            \<and> last (effects st') = RenderPrompt rounds (accumulatedToolResults st)
            \<and> messages st' = fst result
            \<and> accumulatedToolResults st' = foldResults (accumulatedToolResults st) (snd result)
            \<and> callId ` set (concat (map toolCalls rounds)) \<subseteq> dom (map_of (accumulatedToolResults st'))
            \<and> map_of (accumulatedToolResults st) \<subseteq>\<^sub>m map_of (accumulatedToolResults st')
            \<and> map_of (accumulatedToolResults st)
                 \<subseteq>\<^sub>m map_of (accumulatedToolResults (snd (runWithFunctions rq st (r # rs))))"
proof -
  let ?v = "streamLoop (parts r)"
  let ?rounds = "toolCallRounds st
                   @ [\<lparr>response = proseOf (parts r), toolCalls = toolCallParts (parts r)\<rparr>]"
  let ?st' = "turnOf (modelRound rq st r)"
  let ?result = "renderPrompt rq ?rounds (accumulatedToolResults st)
                   (map_option diagram (currentPanel st))"
  note f = callModel_Inr [OF assms(1)]
  have c: "streamToolCalls ?v \<noteq> []"
    using assms(3) by (simp add: streamLoop_toolCalls)
  note m = modelRound_toolCalls [OF assms(1,2) c]
  note s = streamLoop_toolCalls streamLoop_responseStr
  have 1: "modelRound rq st r = Reenter ?st'"
    by (simp add: m)
  have 0: "runWithFunctions rq st (r # rs)
             = (if nothingToIterate rq st
                then (NoDiagramToIterate, emit [Markdown noDiagramText] st)
                else runWithFunctions rq ?st' rs)"
    by (simp add: m)
  have 2: "toolCallRounds ?st' = ?rounds"
    by (simp add: m toolCallBranch_simps turn_simps f s)
  have 3: "last (effects ?st') = RenderPrompt ?rounds (accumulatedToolResults st)"
    by (simp add: m toolCallBranch_simps turn_simps f s)
  have 4: "messages ?st' = fst ?result"
    by (simp add: m toolCallBranch_simps turn_simps f renderPrompt_def s)
  have 5: "accumulatedToolResults ?st' = foldResults (accumulatedToolResults st) (snd ?result)"
    by (simp add: m toolCallBranch_simps turn_simps f renderPrompt_def s)
  have 6: "callId ` set (concat (map toolCalls ?rounds)) \<subseteq> dom (map_of (accumulatedToolResults ?st'))"
    unfolding 5 renderPrompt_def snd_conv foldResults_dom toolResultFor_ids by blast
  note 7 = modelRound_results_grow [of st rq r]
  note 8 = runWithFunctions_results_grow [of st rq "r # rs"]
  from 1 0 2 3 4 5 6 7 8 show ?thesis
    unfolding Let_def by (intro conjI)
qed

theorem tool_round_recorded_and_results_kept_witness:
  "toolCallRounds (turnOf (modelRound plainRequest cachedTurn toolCallRound))
     = [\<lparr>response = ''Looking up Kitchen. '',
          toolCalls = [\<lparr>callId = ''call_0'', toolName = ''mermAId_get_symbol_definition'',
                        parameters = ''Kitchen''\<rparr>]\<rparr>,
        \<lparr>response = ''Looking up House. '',
          toolCalls = [\<lparr>callId = ''call_1'', toolName = ''mermAId_get_symbol_definition'',
                        parameters = ''House''\<rparr>]\<rparr>]
   \<and> accumulatedToolResults (turnOf (modelRound plainRequest cachedTurn toolCallRound))
     = [(''call_0'', ''class Kitchen''), (''call_1'', ''result of mermAId_get_symbol_definition'')]
   \<and> map_of (accumulatedToolResults cachedTurn)
       \<subseteq>\<^sub>m map_of (accumulatedToolResults (turnOf (modelRound plainRequest cachedTurn toolCallRound)))"
proof -
  let ?rounds = "toolCallRounds cachedTurn
                   @ [\<lparr>response = proseOf (parts toolCallRound),
                        toolCalls = toolCallParts (parts toolCallRound)\<rparr>]"
  have h1: "callModel plainRequest cachedTurn = Inr (emit [SendRequest (messages cachedTurn)] cachedTurn)"
    by (simp add: callModel_def groqEnabled_def plainRequest_def)
  have h2: "streamError toolCallRound = None"
    by (simp add: toolCallRound_def)
  have h3: "toolCallParts (parts toolCallRound) \<noteq> []"
    by code_simp
  have r: "?rounds
     = [\<lparr>response = ''Looking up Kitchen. '',
          toolCalls = [\<lparr>callId = ''call_0'', toolName = ''mermAId_get_symbol_definition'',
                        parameters = ''Kitchen''\<rparr>]\<rparr>,
        \<lparr>response = ''Looking up House. '',
          toolCalls = [\<lparr>callId = ''call_1'', toolName = ''mermAId_get_symbol_definition'',
                        parameters = ''House''\<rparr>]\<rparr>]"
    by code_simp
  have e: "foldResults (accumulatedToolResults cachedTurn)
             (snd (renderPrompt plainRequest ?rounds
                (accumulatedToolResults cachedTurn) (map_option diagram (currentPanel cachedTurn))))
           = [(''call_0'', ''class Kitchen''), (''call_1'', ''result of mermAId_get_symbol_definition'')]"
    by code_simp
  from tool_round_recorded_and_results_kept [OF h1 h2 h3, of "[]"]
  have f1: "toolCallRounds (turnOf (modelRound plainRequest cachedTurn toolCallRound)) = ?rounds"
    and f2: "accumulatedToolResults (turnOf (modelRound plainRequest cachedTurn toolCallRound))
          = foldResults (accumulatedToolResults cachedTurn)
             (snd (renderPrompt plainRequest ?rounds
                (accumulatedToolResults cachedTurn) (map_option diagram (currentPanel cachedTurn))))"
    and f3: "map_of (accumulatedToolResults cachedTurn)
       \<subseteq>\<^sub>m map_of (accumulatedToolResults (turnOf (modelRound plainRequest cachedTurn toolCallRound)))"
    unfolding Let_def by blast+
  from f1 [unfolded r] f2 [unfolded e] f3 show ?thesis
    by (intro conjI)
qed














end
